theory Spec2Isabelle
  imports Complex_Main "HOL-Library.Multiset" "HOL-Library.Product_Lexorder"
begin

section \<open>Data frames of generation records\<close>

text \<open>
  The fetcher (\<^verbatim>\<open>src/data/fetch_data.py\<close>) keeps its records in pandas data frames. A
  frame of the pipeline has the three columns \<^verbatim>\<open>timestamp\<close>, \<^verbatim>\<open>fuel_type\<close> and
  \<^verbatim>\<open>generation_mw\<close>, and possibly further columns after them, whose labels are pairwise
  distinct and differ from those three. A row holds the three values and the cells of the
  further columns under their labels, in column order; a frame is the list of its rows,
  which all carry the same labels. Timestamps are instants (pandas stores them as a
  number of nanoseconds). Quantities are the numbers of a numeric column: each is a real
  number, a double of a column of floats or an integer of a column of 64-bit integers.
\<close>

datatype cell = Num real | Flag bool

record row =
  timestamp :: int
  fuel_type :: string
  generation_mw :: real
  extra :: "(string \<times> cell) list"

type_synonym DataFrame = "row list"

datatype exn =
    KeyError string
  | ValueError string
  | MergeError
  | JSONDecodeError
  | OverflowError
  | RequestException string
  | Exception string

text \<open>The three fields of a GenerationRecord, as a tuple.\<close>

definition generation_record :: "row \<Rightarrow> int \<times> string \<times> real" where
  "generation_record r = (timestamp r, fuel_type r, generation_mw r)"

definition columns :: "DataFrame \<Rightarrow> string list" where
  "columns df =
     [''timestamp'', ''fuel_type'', ''generation_mw''] @
     (case df of [] \<Rightarrow> [] | r # _ \<Rightarrow> map fst (extra r))"

text \<open>
  Two pandas routines whose result the source does not fix are parameters of the model.

  \<^verbatim>\<open>groupby(...).sum()\<close> adds the values of each group one after the other, in the order
  of the rows, in the arithmetic of the column: doubles are added with rounding, 64-bit
  integers with wrap-around, so the result need not be the exact sum. \<open>column_sum\<close> is that
  sum, as a function of the values of one group in row order; nothing is assumed of it.

  \<^verbatim>\<open>df.sort_values('timestamp')\<close> is called with the default \<^verbatim>\<open>kind='quicksort'\<close>, which
  pandas documents as not stable. \<open>sort_values\<close> is that routine; nothing is assumed of
  it either.
\<close>

record pandas =
  column_sum :: "real list \<Rightarrow> real"
  sort_values :: "DataFrame \<Rightarrow> DataFrame"

section \<open>The quality filter\<close>

definition MIN_TOTAL_GENERATION :: real where
  "MIN_TOTAL_GENERATION = 25000"

text \<open>
  \<^verbatim>\<open>df.groupby('timestamp')['generation_mw'].sum().reset_index()\<close>: one row for each
  distinct timestamp, in ascending order of the timestamps, with the sum that pandas
  computes of \<^verbatim>\<open>generation_mw\<close> over the rows of that timestamp.
\<close>

definition group_total :: "pandas \<Rightarrow> DataFrame \<Rightarrow> int \<Rightarrow> real" where
  "group_total pd df t = column_sum pd (map generation_mw (filter (\<lambda>r. timestamp r = t) df))"

definition groupby_sum :: "pandas \<Rightarrow> DataFrame \<Rightarrow> (int \<times> real) list" where
  "groupby_sum pd df = map (\<lambda>t. (t, group_total pd df t)) (sort (remdups (map timestamp df)))"

text \<open>
  \<^verbatim>\<open>df.merge(totals[['timestamp', 'total_generation', 'quality_flag']], on='timestamp')\<close>,
  an inner join on the key: the rows of \<^verbatim>\<open>df\<close> in their order, each with the cells of the
  rows of \<^verbatim>\<open>totals\<close> that have its timestamp. (This is the order pandas documents, and
  keeps from version 2.2 on; earlier versions group the rows by key, which is the same
  order on the frames the parser hands over, sorted as they are by timestamp.) A label
  that both sides have (the key apart) gets the suffix \<^verbatim>\<open>_x\<close> on the left and \<^verbatim>\<open>_y\<close> on the
  right. pandas raises a MergeError when a suffix makes a label equal to another label of
  its side, or to a label of the other side that both sides do not share.
\<close>

definition suffixed :: "string list \<Rightarrow> string \<Rightarrow> string \<Rightarrow> string" where
  "suffixed others suffix c = (if c \<in> set others then c @ suffix else c)"

definition duplicated :: "string list \<Rightarrow> bool list" where
  "duplicated ls = map (\<lambda>i. ls ! i \<in> set (take i ls)) [0..<length ls]"

definition right_labels :: "string list" where
  "right_labels = [''total_generation'', ''quality_flag'']"

definition labels_clash :: "string list \<Rightarrow> bool" where
  "labels_clash left =
     (let to_rename = filter (\<lambda>c. c \<in> set right_labels) left;
          llabels = map (suffixed right_labels ''_x'') left;
          rlabels = map (suffixed left ''_y'') right_labels
      in (\<exists>(d', d) \<in> set (zip (duplicated llabels) (duplicated left)). d' \<and> \<not> d) \<or>
         (\<exists>(d', d) \<in> set (zip (duplicated rlabels) (duplicated right_labels)). d' \<and> \<not> d) \<or>
         (\<exists>c \<in> set llabels. c \<in> set right_labels \<and> c \<notin> set to_rename) \<or>
         (\<exists>c \<in> set rlabels. c \<in> set left \<and> c \<notin> set to_rename))"

definition merge_row :: "string list \<Rightarrow> row \<Rightarrow> int \<times> real \<times> bool \<Rightarrow> row" where
  "merge_row left r tot =
     (case tot of (t, tg, flag) \<Rightarrow>
        r\<lparr>extra :=
            map (\<lambda>(c, v). (suffixed right_labels ''_x'' c, v)) (extra r) @
            [(suffixed left ''_y'' ''total_generation'', Num tg),
             (suffixed left ''_y'' ''quality_flag'', Flag flag)]\<rparr>)"

definition merge_on_timestamp ::
  "DataFrame \<Rightarrow> (int \<times> real \<times> bool) list \<Rightarrow> exn + DataFrame" where
  "merge_on_timestamp df totals =
     (let left = columns df
      in if labels_clash left then Inl MergeError
         else Inr (concat (map (\<lambda>r.
                map (merge_row left r) (filter (\<lambda>(t, tg, flag). t = timestamp r) totals))
              df)))"

text \<open>\<^verbatim>\<open>df['quality_flag']\<close> as a mask: the cell of each row under that label.\<close>

definition quality_flag :: "row \<Rightarrow> bool" where
  "quality_flag r = (case map_of (extra r) ''quality_flag'' of Some (Flag b) \<Rightarrow> b | _ \<Rightarrow> False)"

definition drop_column :: "string \<Rightarrow> row \<Rightarrow> row" where
  "drop_column c r = r\<lparr>extra := filter (\<lambda>(l, v). l \<noteq> c) (extra r)\<rparr>"

text \<open>
  \<^verbatim>\<open>_apply_quality_checks\<close>. An empty frame is returned as it is. Otherwise the totals
  per timestamp are flagged against the threshold and merged back, the rows whose flag is
  false are dropped, and so is the flag column; the \<^verbatim>\<open>total_generation\<close> column stays.
  The two warnings that count the bad records and periods are log output only.
\<close>

definition apply_quality_checks :: "pandas \<Rightarrow> DataFrame \<Rightarrow> exn + DataFrame" where
  "apply_quality_checks pd df =
     (if df = [] then Inr df
      else
        let totals = map (\<lambda>(t, tg). (t, tg, tg \<ge> MIN_TOTAL_GENERATION)) (groupby_sum pd df)
        in case merge_on_timestamp df totals of
             Inl e \<Rightarrow> Inl e
           | Inr merged \<Rightarrow>
               if ''quality_flag'' \<notin> set (columns merged) then Inl (KeyError ''quality_flag'')
               else Inr (map (drop_column ''quality_flag'') (filter quality_flag merged)))"

section \<open>The response parser\<close>

text \<open>
  The body of a response, as \<^verbatim>\<open>response.json()\<close> gives it, in the shape of the API: a
  dictionary whose member \<^verbatim>\<open>data\<close> is a list of periods; a period is a dictionary with a
  \<^verbatim>\<open>startTime\<close> and a member \<^verbatim>\<open>data\<close>, the list of its entries; an entry is a dictionary
  with a \<^verbatim>\<open>psrType\<close>, a text, and a \<^verbatim>\<open>quantity\<close>, a number. Each member may be missing
  (\<open>None\<close>). A start time is given as the instant that \<^verbatim>\<open>pd.to_datetime\<close> reads from its text.
\<close>

record entry =
  psrType :: "string option"
  quantity :: "real option"

record period =
  startTime :: "int option"
  entries :: "entry list option"

record api_body =
  periods :: "period list option"

text \<open>
  The two loops of \<^verbatim>\<open>_parse_response\<close>: one record for each entry of each period, in the
  order of the body, with the period's \<^verbatim>\<open>startTime\<close>, the entry's \<^verbatim>\<open>psrType\<close> and its
  \<^verbatim>\<open>quantity\<close>. A missing list of entries counts as empty (\<^verbatim>\<open>period.get('data', [])\<close>); the
  first missing key of the others stops the whole parse with a KeyError.
\<close>

fun entry_records :: "int \<Rightarrow> entry list \<Rightarrow> exn + DataFrame" where
  "entry_records ts [] = Inr []"
| "entry_records ts (e # es) =
     (case psrType e of
        None \<Rightarrow> Inl (KeyError ''psrType'')
      | Some psr \<Rightarrow>
          (case quantity e of
             None \<Rightarrow> Inl (KeyError ''quantity'')
           | Some qty \<Rightarrow>
               (case entry_records ts es of
                  Inl x \<Rightarrow> Inl x
                | Inr recs \<Rightarrow>
                    Inr (\<lparr>timestamp = ts, fuel_type = psr, generation_mw = qty, extra = []\<rparr> # recs))))"

fun period_records :: "period list \<Rightarrow> exn + DataFrame" where
  "period_records [] = Inr []"
| "period_records (p # ps) =
     (case startTime p of
        None \<Rightarrow> Inl (KeyError ''startTime'')
      | Some ts \<Rightarrow>
          (case entry_records ts (case entries p of None \<Rightarrow> [] | Some es \<Rightarrow> es) of
             Inl x \<Rightarrow> Inl x
           | Inr recs \<Rightarrow>
               (case period_records ps of
                  Inl x \<Rightarrow> Inl x
                | Inr rest \<Rightarrow> Inr (recs @ rest))))"

text \<open>
  \<^verbatim>\<open>_parse_response\<close>: the frame of the records (\<^verbatim>\<open>data.get('data', [])\<close> is empty when
  the member is missing), sorted by timestamp unless it is empty.
\<close>

definition parse_response :: "pandas \<Rightarrow> api_body \<Rightarrow> exn + DataFrame" where
  "parse_response pd data =
     (case period_records (case periods data of None \<Rightarrow> [] | Some ps \<Rightarrow> ps) of
        Inl e \<Rightarrow> Inl e
      | Inr df \<Rightarrow> if df \<noteq> [] then Inr (sort_values pd df) else Inr df)"

section \<open>Datetimes and the request parameters\<close>

text \<open>
  A \<^verbatim>\<open>datetime\<close> object is its fields, and the offset from UTC that its \<^verbatim>\<open>tzinfo\<close> gives, in
  microseconds: \<open>None\<close> for a naive datetime, which has no \<^verbatim>\<open>tzinfo\<close>. The fetcher's own
  callers build naive ones with \<^verbatim>\<open>datetime.utcnow()\<close>, which fills the microsecond field.
\<close>

record datetime =
  year :: nat
  month :: nat
  day :: nat
  hour :: nat
  minute :: nat
  second :: nat
  microsecond :: nat
  tzinfo :: "int option"

definition is_leap :: "nat \<Rightarrow> bool" where
  "is_leap y \<longleftrightarrow> y mod 4 = 0 \<and> (y mod 100 \<noteq> 0 \<or> y mod 400 = 0)"



text \<open>
  The instant of a datetime, in microseconds since 0001-01-01T00:00:00 UTC: the day
  number of its date (CPython's \<^verbatim>\<open>_ymd2ord\<close>) and the time of day, less the offset from
  UTC. A naive datetime is read as UTC, which is how the fetcher prints it.
\<close>

definition ymd2ord :: "nat \<Rightarrow> nat \<Rightarrow> nat \<Rightarrow> nat" where
  "ymd2ord y m d =
     (y - 1) * 365 + (y - 1) div 4 - (y - 1) div 100 + (y - 1) div 400 +
     ([0, 0, 31, 59, 90, 120, 151, 181, 212, 243, 273, 304, 334] ! m +
      (if m > 2 \<and> is_leap y then 1 else 0)) + d"

definition offset_from_utc :: "datetime \<Rightarrow> int" where
  "offset_from_utc d = (case tzinfo d of None \<Rightarrow> 0 | Some off \<Rightarrow> off)"

definition utc_instant :: "datetime \<Rightarrow> int" where
  "utc_instant d =
     (int (ymd2ord (year d) (month d) (day d)) - 1) * 86400000000 +
     int (hour d) * 3600000000 + int (minute d) * 60000000 + int (second d) * 1000000 +
     int (microsecond d) - offset_from_utc d"

text \<open>
  Python compares two naive datetimes as the tuples of their fields, and two aware ones as
  instants. It refuses to order a naive and an aware one (a TypeError): neither is less
  than the other here.
\<close>

definition timetuple :: "datetime \<Rightarrow> nat \<times> nat \<times> nat \<times> nat \<times> nat \<times> nat \<times> nat" where
  "timetuple d = (year d, month d, day d, hour d, minute d, second d, microsecond d)"

definition datetime_less :: "datetime \<Rightarrow> datetime \<Rightarrow> bool" where
  "datetime_less a b \<longleftrightarrow>
     (case (tzinfo a, tzinfo b) of
        (None, None) \<Rightarrow> timetuple a < timetuple b
      | (Some oa, Some ob) \<Rightarrow> utc_instant a < utc_instant b
      | _ \<Rightarrow> False)"

text \<open>
  \<^verbatim>\<open>strftime('%Y-%m-%dT%H:%M:%SZ')\<close>: the year on four digits, the other fields on two,
  for the values a datetime holds, and the letter Z, which stands in the format as it is.
  Neither the microsecond field nor the offset from UTC is printed. (Below the year 1000
  the C libraries differ on the padding of \<^verbatim>\<open>%Y\<close>.)
\<close>

definition digit :: "nat \<Rightarrow> char" where
  "digit n = ''0123456789'' ! (n mod 10)"

definition two_digits :: "nat \<Rightarrow> string" where
  "two_digits n = [digit (n div 10), digit n]"

definition four_digits :: "nat \<Rightarrow> string" where
  "four_digits n = [digit (n div 1000), digit (n div 100), digit (n div 10), digit n]"

definition strftime :: "datetime \<Rightarrow> string" where
  "strftime d =
     four_digits (year d) @ ''-'' @ two_digits (month d) @ ''-'' @ two_digits (day d) @ ''T'' @
     two_digits (hour d) @ '':'' @ two_digits (minute d) @ '':'' @ two_digits (second d) @ ''Z''"

text \<open>The \<^verbatim>\<open>params\<close> dictionary of \<^verbatim>\<open>fetch_generation_data\<close>: the values of \<^verbatim>\<open>from\<close> and \<^verbatim>\<open>to\<close>.\<close>

definition request_params :: "datetime \<Rightarrow> datetime \<Rightarrow> string \<times> string" where
  "request_params start_date end_date = (strftime start_date, strftime end_date)"




section \<open>The fetch client\<close>

text \<open>
  The world the client acts on: what the upstream gives to the n-th GET (a raised
  exception, or a response with its status and its body, \<open>None\<close> when \<^verbatim>\<open>response.json()\<close>
  raises), the parameters of the GETs issued so far, and the seconds slept so far.
  Log lines and the latency measurement are left out.
\<close>

record response =
  status_code :: int
  body :: "api_body option"

datatype outcome = Raises exn | Returns response

record world =
  upstream :: "nat \<Rightarrow> string \<times> string \<Rightarrow> outcome"
  requests :: "(string \<times> string) list"
  sleeps :: "nat list"

definition make_request :: "world \<Rightarrow> string \<times> string \<Rightarrow> outcome \<times> world" where
  "make_request w params =
     (upstream w (length (requests w)) params, w\<lparr>requests := requests w @ [params]\<rparr>)"

definition sleep :: "nat \<Rightarrow> world \<Rightarrow> world" where
  "sleep seconds w = w\<lparr>sleeps := sleeps w @ [seconds]\<rparr>"

text \<open>
  The body of the \<^verbatim>\<open>try\<close> in \<^verbatim>\<open>fetch_generation_data\<close>: \<open>Inr (Some df)\<close> when it returns
  the frame, \<open>Inr None\<close> when the status is not 200 and only a warning is logged, \<open>Inl e\<close>
  when the request, \<^verbatim>\<open>response.json()\<close>, the parser or the quality filter raises.
\<close>

definition try_fetch :: "pandas \<Rightarrow> world \<Rightarrow> string \<times> string \<Rightarrow> (exn + DataFrame option) \<times> world" where
  "try_fetch pd w params =
     (case make_request w params of
        (Raises e, w1) \<Rightarrow> (Inl e, w1)
      | (Returns resp, w1) \<Rightarrow>
          if status_code resp = 200 then
            (case body resp of
               None \<Rightarrow> (Inl JSONDecodeError, w1)
             | Some data \<Rightarrow>
                 (case parse_response pd data of
                    Inl e \<Rightarrow> (Inl e, w1)
                  | Inr df \<Rightarrow>
                      (case apply_quality_checks pd df of
                         Inl e \<Rightarrow> (Inl e, w1)
                       | Inr df_clean \<Rightarrow> (Inr (Some df_clean), w1))))
          else (Inr None, w1))"

text \<open>
  \<^verbatim>\<open>for attempt in range(retry_attempts)\<close>: a caught exception sleeps \<^verbatim>\<open>2 ** attempt\<close>
  seconds and goes on, or is raised again on the last attempt; a status other than 200
  goes on at once; the loop running out raises the final exception.
\<close>

function retry_loop ::
  "pandas \<Rightarrow> string \<times> string \<Rightarrow> nat \<Rightarrow> nat \<Rightarrow> world \<Rightarrow> (exn + DataFrame) \<times> world" where
  "retry_loop pd params retry_attempts attempt w =
     (if attempt < retry_attempts then
        (case try_fetch pd w params of
           (Inr (Some df), w1) \<Rightarrow> (Inr df, w1)
         | (Inr None, w1) \<Rightarrow> retry_loop pd params retry_attempts (Suc attempt) w1
         | (Inl e, w1) \<Rightarrow>
             if attempt < retry_attempts - 1
             then retry_loop pd params retry_attempts (Suc attempt) (sleep (2 ^ attempt) w1)
             else (Inl e, w1))
      else (Inl (Exception ''Failed to fetch data after all retry attempts''), w))"
  by pat_completeness auto
termination
  by (relation "measure (\<lambda>(pd, params, retry_attempts, attempt, w). retry_attempts - attempt)") auto

definition fetch_generation_data ::
  "pandas \<Rightarrow> world \<Rightarrow> datetime \<Rightarrow> datetime \<Rightarrow> nat \<Rightarrow> (exn + DataFrame) \<times> world" where
  "fetch_generation_data pd w start_date end_date retry_attempts =
     retry_loop pd (request_params start_date end_date) retry_attempts 0 w"

section \<open>The chunked historical fetch\<close>

text \<open>
  Python adds a \<^verbatim>\<open>timedelta\<close> to a datetime, and compares two datetimes, on the line of
  time: here an instant is the number of microseconds since 0001-01-01T00:00:00, and
  \<open>datetime_of\<close> gives its fields, the date by CPython's \<^verbatim>\<open>_ord2ymd\<close>, as the naive
  datetime that \<^verbatim>\<open>datetime.utcnow()\<close> and its sums are. A result before the year 1 or after
  the year 9999 raises OverflowError, and so does a \<^verbatim>\<open>timedelta\<close> of more than 999999999
  days.
\<close>

definition DAY :: int where
  "DAY = 86400000000"

definition MAX_INSTANT :: int where
  "MAX_INSTANT = 3652059 * DAY"

definition representable :: "int \<Rightarrow> bool" where
  "representable t \<longleftrightarrow> 0 \<le> t \<and> t < MAX_INSTANT"

definition ord2ymd :: "nat \<Rightarrow> nat \<times> nat \<times> nat" where
  "ord2ymd ordinal =
     (let n0 = ordinal - 1;
          n400 = n0 div 146097; n1 = n0 mod 146097;
          n100 = n1 div 36524; n2 = n1 mod 36524;
          n4 = n2 div 1461; n3 = n2 mod 1461;
          n1y = n3 div 365; n = n3 mod 365;
          y = n400 * 400 + 1 + n100 * 100 + n4 * 4 + n1y
      in if n1y = 4 \<or> n100 = 4 then (y - 1, 12, 31)
         else
           let leapyear = (n1y = 3 \<and> (n4 \<noteq> 24 \<or> n100 = 3));
               m = (n + 50) div 32;
               preceding =
                 [0, 0, 31, 59, 90, 120, 151, 181, 212, 243, 273, 304, 334] ! m +
                 (if m > 2 \<and> leapyear then 1 else 0)
           in if preceding > n
              then
                (y, m - 1,
                 n - (preceding -
                      ([0, 31, 28, 31, 30, 31, 30, 31, 31, 30, 31, 30, 31] ! (m - 1) +
                       (if m - 1 = 2 \<and> leapyear then 1 else 0))) + 1)
              else (y, m, n - preceding + 1))"

definition datetime_of :: "int \<Rightarrow> datetime" where
  "datetime_of t =
     (let us = nat (t mod DAY)
      in case ord2ymd (nat (t div DAY) + 1) of
           (y, m, d) \<Rightarrow>
             \<lparr>year = y, month = m, day = d,
              hour = us div 3600000000, minute = us div 60000000 mod 60,
              second = us div 1000000 mod 60, microsecond = us mod 1000000,
              tzinfo = None\<rparr>)"

definition chunk_size :: int where
  "chunk_size = 7"

text \<open>
  The \<^verbatim>\<open>while\<close> loop of \<^verbatim>\<open>fetch_historical_data\<close>: a chunk of at most seven days is
  fetched with the default three attempts, its frame is appended, and one second is slept.
  An exception of the fetch leaves the loop and the function.
\<close>

function historical_loop ::
  "pandas \<Rightarrow> int \<Rightarrow> int \<Rightarrow> DataFrame list \<Rightarrow> world \<Rightarrow> (exn + DataFrame list) \<times> world" where
  "historical_loop pd current_start end_date all_data w =
     (if current_start < end_date then
        if \<not> representable (current_start + chunk_size * DAY) then (Inl OverflowError, w)
        else
          (case fetch_generation_data pd w (datetime_of current_start)
                  (datetime_of (min (current_start + chunk_size * DAY) end_date)) 3 of
             (Inl e, w1) \<Rightarrow> (Inl e, w1)
           | (Inr chunk_df, w1) \<Rightarrow>
               historical_loop pd (min (current_start + chunk_size * DAY) end_date) end_date
                 (all_data @ [chunk_df]) (sleep 1 w1))
      else (Inr all_data, w))"
  by pat_completeness auto
termination
  by (relation "measure (\<lambda>(pd, current_start, end_date, all_data, w). nat (end_date - current_start))")
     (auto simp: chunk_size_def DAY_def)

text \<open>
  \<^verbatim>\<open>fetch_historical_data(days)\<close>, with the reading of \<^verbatim>\<open>datetime.utcnow()\<close> as \<open>now\<close>.
  \<^verbatim>\<open>pd.concat\<close> raises a ValueError on an empty list of frames.
\<close>

definition fetch_historical_data ::
  "pandas \<Rightarrow> world \<Rightarrow> int \<Rightarrow> int \<Rightarrow> (exn + DataFrame) \<times> world" where
  "fetch_historical_data pd w now days =
     (if \<bar>days\<bar> > 999999999 \<or> \<not> representable (now - days * DAY) then (Inl OverflowError, w)
      else
        (case historical_loop pd (now - days * DAY) now [] w of
           (Inl e, w1) \<Rightarrow> (Inl e, w1)
         | (Inr all_data, w1) \<Rightarrow>
             if all_data = [] then (Inl (ValueError ''No objects to concatenate''), w1)
             else (Inr (concat all_data), w1)))"

text \<open>
  The sub-windows the loop walks through, and the fetch of a list of windows one after
  the other, as the specification words it: each window is fetched, its output appended,
  and one second slept; the first failure ends the whole fetch.
\<close>

function sub_windows :: "int \<Rightarrow> int \<Rightarrow> (int \<times> int) list" where
  "sub_windows current_start end_date =
     (if current_start < end_date
      then (current_start, min (current_start + chunk_size * DAY) end_date) #
           sub_windows (min (current_start + chunk_size * DAY) end_date) end_date
      else [])"
  by pat_completeness auto
termination
  by (relation "measure (\<lambda>(current_start, end_date). nat (end_date - current_start))")
     (auto simp: chunk_size_def DAY_def)

fun fetch_windows ::
  "pandas \<Rightarrow> (int \<times> int) list \<Rightarrow> DataFrame list \<Rightarrow> world \<Rightarrow> (exn + DataFrame list) \<times> world" where
  "fetch_windows pd [] outputs w = (Inr outputs, w)"
| "fetch_windows pd ((a, b) # windows) outputs w =
     (case fetch_generation_data pd w (datetime_of a) (datetime_of b) 3 of
        (Inl e, w1) \<Rightarrow> (Inl e, w1)
      | (Inr df, w1) \<Rightarrow> fetch_windows pd windows (outputs @ [df]) (sleep 1 w1))"

section \<open>Auxiliary definitions\<close>

text \<open>The row of the totals for the timestamp of a row, and the row the filter keeps.\<close>

definition total_row :: "pandas \<Rightarrow> DataFrame \<Rightarrow> row \<Rightarrow> int \<times> real \<times> bool" where
  "total_row pd df r =
     (timestamp r, group_total pd df (timestamp r),
      group_total pd df (timestamp r) \<ge> MIN_TOTAL_GENERATION)"

definition keep_row :: "pandas \<Rightarrow> DataFrame \<Rightarrow> row \<Rightarrow> row" where
  "keep_row pd df r =
     r\<lparr>extra :=
         map (\<lambda>(c, v). (suffixed right_labels ''_x'' c, v)) (extra r) @
         [(suffixed (columns df) ''_y'' ''total_generation'', Num (group_total pd df (timestamp r)))]\<rparr>"

text \<open>
  A frame of two periods, as the parser gives it: the first totals 30000 MW over three
  fuel types, the second 10000 MW over two.
\<close>

definition rec :: "int \<Rightarrow> string \<Rightarrow> real \<Rightarrow> row" where
  "rec t f g = \<lparr>timestamp = t, fuel_type = f, generation_mw = g, extra = []\<rparr>"

definition two_periods :: DataFrame where
  "two_periods =
     [rec 0 ''Fossil Gas'' 15000, rec 0 ''Nuclear'' 8000, rec 0 ''Wind Onshore'' 7000,
      rec 1800 ''Solar'' 6000, rec 1800 ''Wind Onshore'' 4000]"

text \<open>A kept row with its total, and the test of the threshold on the period of a row.\<close>

definition with_total :: "pandas \<Rightarrow> DataFrame \<Rightarrow> row \<Rightarrow> row" where
  "with_total pd df r = r\<lparr>extra := [(''total_generation'', Num (group_total pd df (timestamp r)))]\<rparr>"

definition valid_period :: "pandas \<Rightarrow> DataFrame \<Rightarrow> row \<Rightarrow> bool" where
  "valid_period pd df r \<longleftrightarrow> group_total pd df (timestamp r) \<ge> MIN_TOTAL_GENERATION"

text \<open>What the filter gives on \<open>two_periods\<close>, and what it gives on that output.\<close>

definition first_output :: DataFrame where
  "first_output =
     [\<lparr>timestamp = 0, fuel_type = ''Fossil Gas'', generation_mw = 15000,
       extra = [(''total_generation'', Num 30000)]\<rparr>,
      \<lparr>timestamp = 0, fuel_type = ''Nuclear'', generation_mw = 8000,
       extra = [(''total_generation'', Num 30000)]\<rparr>,
      \<lparr>timestamp = 0, fuel_type = ''Wind Onshore'', generation_mw = 7000,
       extra = [(''total_generation'', Num 30000)]\<rparr>]"

definition second_output :: DataFrame where
  "second_output =
     [\<lparr>timestamp = 0, fuel_type = ''Fossil Gas'', generation_mw = 15000,
       extra = [(''total_generation_x'', Num 30000), (''total_generation_y'', Num 30000)]\<rparr>,
      \<lparr>timestamp = 0, fuel_type = ''Nuclear'', generation_mw = 8000,
       extra = [(''total_generation_x'', Num 30000), (''total_generation_y'', Num 30000)]\<rparr>,
      \<lparr>timestamp = 0, fuel_type = ''Wind Onshore'', generation_mw = 7000,
       extra = [(''total_generation_x'', Num 30000), (''total_generation_y'', Num 30000)]\<rparr>]"

text \<open>
  The result of the \<^verbatim>\<open>try\<close> body as a function of what the upstream gave, and the world
  after one more GET.
\<close>

definition try_result :: "pandas \<Rightarrow> outcome \<Rightarrow> exn + DataFrame option" where
  "try_result pd out =
     (case out of
        Raises e \<Rightarrow> Inl e
      | Returns resp \<Rightarrow>
          if status_code resp = 200 then
            (case body resp of
               None \<Rightarrow> Inl JSONDecodeError
             | Some data \<Rightarrow>
                 (case parse_response pd data of
                    Inl e \<Rightarrow> Inl e
                  | Inr df \<Rightarrow>
                      (case apply_quality_checks pd df of
                         Inl e \<Rightarrow> Inl e
                       | Inr df_clean \<Rightarrow> Inr (Some df_clean))))
          else Inr None)"

definition requested :: "string \<times> string \<Rightarrow> world \<Rightarrow> world" where
  "requested params w = w\<lparr>requests := requests w @ [params]\<rparr>"

text \<open>A failed call: a raised exception, or a response whose status is not 200.\<close>

definition failed_call :: "outcome \<Rightarrow> bool" where
  "failed_call out = (case out of Raises e \<Rightarrow> True | Returns resp \<Rightarrow> status_code resp \<noteq> 200)"

text \<open>The exception raised after the loop.\<close>

definition exhausted :: exn where
  "exhausted = Exception ''Failed to fetch data after all retry attempts''"

text \<open>
  Example inputs. The quantities of the examples are whole numbers of megawatts, which a
  column of either kind adds exactly, and the bodies of the examples hold one entry, whose
  frame \<^verbatim>\<open>sort_values\<close> can only leave as it is. Two datetimes; upstreams that always time
  out, always answer 503, answer a body without \<^verbatim>\<open>startTime\<close> once or always, or always
  answer a good body, whose start time is 2024-01-01T00:00:00Z in nanoseconds since 1970.
\<close>

definition example_pandas :: pandas where
  "example_pandas = \<lparr>column_sum = sum_list, sort_values = sort_key timestamp\<rparr>"

definition jan1 :: datetime where
  "jan1 = \<lparr>year = 2024, month = 1, day = 1, hour = 0, minute = 0, second = 0, microsecond = 0,
           tzinfo = None\<rparr>"

definition jan2 :: datetime where
  "jan2 = \<lparr>year = 2024, month = 1, day = 2, hour = 0, minute = 0, second = 0, microsecond = 0,
           tzinfo = None\<rparr>"

definition timeouts :: world where
  "timeouts = \<lparr>upstream = (\<lambda>n params. Raises (RequestException ''timeout'')),
               requests = [], sleeps = []\<rparr>"

definition unavailable :: world where
  "unavailable = \<lparr>upstream = (\<lambda>n params. Returns \<lparr>status_code = 503, body = None\<rparr>),
                  requests = [], sleeps = []\<rparr>"

definition good_body :: api_body where
  "good_body =
     \<lparr>periods = Some [\<lparr>startTime = Some 1704067200000000000,
                        entries = Some [\<lparr>psrType = Some ''Nuclear'', quantity = Some 30000\<rparr>]\<rparr>]\<rparr>"




definition good_frame :: DataFrame where
  "good_frame =
     [\<lparr>timestamp = 1704067200000000000, fuel_type = ''Nuclear'', generation_mw = 30000,
       extra = [(''total_generation'', Num 30000)]\<rparr>]"


definition always_good :: world where
  "always_good =
     \<lparr>upstream = (\<lambda>n params. Returns \<lparr>status_code = 200, body = Some good_body\<rparr>),
      requests = [], sleeps = []\<rparr>"





text \<open>
  Two more datetimes, and the world after a historical fetch of ten days up to
  2024-01-11 against the upstream that always answers the good body.
\<close>

definition jan8 :: datetime where
  "jan8 = \<lparr>year = 2024, month = 1, day = 8, hour = 0, minute = 0, second = 0, microsecond = 0,
           tzinfo = None\<rparr>"

definition jan11 :: datetime where
  "jan11 = \<lparr>year = 2024, month = 1, day = 11, hour = 0, minute = 0, second = 0, microsecond = 0,
            tzinfo = None\<rparr>"

definition two_chunks_world :: world where
  "two_chunks_world =
     sleep 1 (requested (request_params jan8 jan11)
       (sleep 1 (requested (request_params jan1 jan8) always_good)))"

section \<open>The quality filter: proofs\<close>

lemma filter_eq_distinct: "distinct xs \<Longrightarrow> x \<in> set xs \<Longrightarrow> filter (\<lambda>t. t = x) xs = [x]"
  by (induction xs) (auto simp: filter_empty_conv)

lemma totals_lookup:
  assumes "r \<in> set df"
  shows "filter (\<lambda>(t, tg, flag). t = timestamp r)
           (map (\<lambda>(t, tg). (t, tg, tg \<ge> MIN_TOTAL_GENERATION)) (groupby_sum pd df))
         = [total_row pd df r]"
proof -
  have d: "distinct (sort (remdups (map timestamp df)))" by simp
  have m: "timestamp r \<in> set (sort (remdups (map timestamp df)))" using assms by simp
  show ?thesis
    unfolding groupby_sum_def total_row_def
    by (simp add: filter_map o_def case_prod_unfold filter_eq_distinct[OF d m])
qed

lemma suffixed_x_not_flag: "suffixed right_labels ''_x'' c \<noteq> ''quality_flag''"
  by (auto simp: suffixed_def right_labels_def)

lemma suffixed_y_tg_not_flag: "suffixed ls ''_y'' ''total_generation'' \<noteq> ''quality_flag''"
  by (auto simp: suffixed_def)

lemma merge_rows:
  assumes "\<not> labels_clash (columns df)"
  shows "merge_on_timestamp df (map (\<lambda>(t, tg). (t, tg, tg \<ge> MIN_TOTAL_GENERATION)) (groupby_sum pd df))
         = Inr (map (\<lambda>r. merge_row (columns df) r (total_row pd df r)) df)"
proof -
  have "concat (map (\<lambda>r. map (merge_row (columns df) r)
           (filter (\<lambda>(t, tg, flag). t = timestamp r)
              (map (\<lambda>(t, tg). (t, tg, tg \<ge> MIN_TOTAL_GENERATION)) (groupby_sum pd df)))) df)
        = concat (map (\<lambda>r. [merge_row (columns df) r (total_row pd df r)]) df)"
    by (rule arg_cong[where f=concat], rule map_cong) (simp_all add: totals_lookup)
  also have "\<dots> = map (\<lambda>r. merge_row (columns df) r (total_row pd df r)) df"
    by (induction df) simp_all
  finally show ?thesis using assms by (simp add: merge_on_timestamp_def Let_def)
qed

lemma renamed_no_flag:
  "map_of (map (\<lambda>(c, v). (suffixed right_labels ''_x'' c, v)) xs) ''quality_flag'' = None"
  by (induction xs) (auto simp: suffixed_x_not_flag[symmetric] suffixed_x_not_flag)

lemma quality_flag_merge_row:
  "''quality_flag'' \<notin> set left \<Longrightarrow> quality_flag (merge_row left r (t, tg, flag)) = flag"
  by (simp add: quality_flag_def merge_row_def map_add_def renamed_no_flag
      suffixed_y_tg_not_flag[symmetric]) (simp add: suffixed_def)

lemma filter_renamed:
  "filter (\<lambda>(l, v). l \<noteq> ''quality_flag'') (map (\<lambda>(c, v). (suffixed right_labels ''_x'' c, v)) xs)
   = map (\<lambda>(c, v). (suffixed right_labels ''_x'' c, v)) xs"
  by (induction xs) (auto simp: suffixed_x_not_flag)

lemma drop_merge_row:
  "''quality_flag'' \<notin> set (columns df) \<Longrightarrow>
   drop_column ''quality_flag'' (merge_row (columns df) r (total_row pd df r)) = keep_row pd df r"
  by (simp add: drop_column_def merge_row_def total_row_def keep_row_def filter_renamed
      suffixed_y_tg_not_flag) (simp add: suffixed_def)

lemma columns_merged:
  assumes "df \<noteq> []" and "''quality_flag'' \<notin> set (columns df)"
  shows "''quality_flag'' \<in> set (columns (map (\<lambda>r. merge_row (columns df) r (total_row pd df r)) df))"
proof -
  obtain r rs where "df = r # rs" using assms(1) by (cases df) auto
  moreover have "suffixed (columns df) ''_y'' ''quality_flag'' = ''quality_flag''"
    using assms(2) by (simp add: suffixed_def)
  ultimately show ?thesis
    by (simp add: columns_def merge_row_def total_row_def)
qed

text \<open>
  What the filter returns on a frame whose labels do not clash and that has no column
  \<^verbatim>\<open>quality_flag\<close> of its own: the rows of the valid periods, in their order, each with
  its period's total.
\<close>

lemma apply_quality_checks_rows:
  assumes "\<not> labels_clash (columns df)" and "''quality_flag'' \<notin> set (columns df)"
  shows "apply_quality_checks pd df =
     Inr (map (keep_row pd df) (filter (\<lambda>r. group_total pd df (timestamp r) \<ge> MIN_TOTAL_GENERATION) df))"
proof (cases "df = []")
  case True
  then show ?thesis by (simp add: apply_quality_checks_def)
next
  case False
  let ?g = "\<lambda>r. merge_row (columns df) r (total_row pd df r)"
  have flag: "quality_flag (?g r) = (group_total pd df (timestamp r) \<ge> MIN_TOTAL_GENERATION)" for r
    using assms(2) by (simp add: total_row_def quality_flag_merge_row)
  have "filter quality_flag (map ?g df)
        = map ?g (filter (\<lambda>r. group_total pd df (timestamp r) \<ge> MIN_TOTAL_GENERATION) df)"
    by (simp add: filter_map o_def flag)
  then have "map (drop_column ''quality_flag'') (filter quality_flag (map ?g df))
        = map (keep_row pd df) (filter (\<lambda>r. group_total pd df (timestamp r) \<ge> MIN_TOTAL_GENERATION) df)"
    using assms(2) by (simp add: drop_merge_row)
  then show ?thesis
    using False columns_merged[OF False assms(2)]
    by (simp add: apply_quality_checks_def Let_def merge_rows[OF assms(1)])
qed

lemma columns_three:
  "\<forall>r\<in>set df. extra r = [] \<Longrightarrow> columns df = [''timestamp'', ''fuel_type'', ''generation_mw'']"
  by (cases df) (auto simp: columns_def)

lemma no_clash_three: "\<not> labels_clash [''timestamp'', ''fuel_type'', ''generation_mw'']"
  by (simp add: labels_clash_def duplicated_def suffixed_def right_labels_def upt_rec)

lemma keep_row_three:
  "\<forall>r\<in>set df. extra r = [] \<Longrightarrow> r \<in> set df \<Longrightarrow>
   keep_row pd df r = r\<lparr>extra := [(''total_generation'', Num (group_total pd df (timestamp r)))]\<rparr>"
  by (simp add: keep_row_def columns_three suffixed_def)

text \<open>On a frame of the three columns, as the parser gives it.\<close>

lemma apply_quality_checks_three:
  assumes "\<forall>r\<in>set df. extra r = []"
  shows "apply_quality_checks pd df =
     Inr (map (\<lambda>r. r\<lparr>extra := [(''total_generation'', Num (group_total pd df (timestamp r)))]\<rparr>)
            (filter (\<lambda>r. group_total pd df (timestamp r) \<ge> MIN_TOTAL_GENERATION) df))"
proof -
  have "apply_quality_checks pd df =
     Inr (map (keep_row pd df) (filter (\<lambda>r. group_total pd df (timestamp r) \<ge> MIN_TOTAL_GENERATION) df))"
    by (rule apply_quality_checks_rows) (simp_all add: columns_three[OF assms] no_clash_three)
  moreover have "map (keep_row pd df) (filter (\<lambda>r. group_total pd df (timestamp r) \<ge> MIN_TOTAL_GENERATION) df)
    = map (\<lambda>r. r\<lparr>extra := [(''total_generation'', Num (group_total pd df (timestamp r)))]\<rparr>)
            (filter (\<lambda>r. group_total pd df (timestamp r) \<ge> MIN_TOTAL_GENERATION) df)"
    by (rule map_cong) (simp_all add: keep_row_three[OF assms])
  ultimately show ?thesis by simp
qed

lemma group_total_kept:
  assumes "\<And>r. timestamp (f r) = timestamp r" and "\<And>r. generation_mw (f r) = generation_mw r"
    and "P t"
  shows "group_total pd (map f (filter (\<lambda>r. P (timestamp r)) df)) t = group_total pd df t"
proof -
  have "filter (\<lambda>r. timestamp r = t) (map f (filter (\<lambda>r. P (timestamp r)) df))
        = map f (filter (\<lambda>r. timestamp r = t) df)"
    using assms(3) by (induction df) (auto simp: assms(1))
  then show ?thesis
    by (simp add: group_total_def o_def assms(2))
qed




lemma first_pass:
  assumes "\<forall>r\<in>set df. extra r = []"
  shows "apply_quality_checks pd df = Inr (map (with_total pd df) (filter (valid_period pd df) df))"
proof -
  have "with_total pd df = (\<lambda>r. r\<lparr>extra := [(''total_generation'', Num (group_total pd df (timestamp r)))]\<rparr>)"
    by (rule ext) (simp add: with_total_def)
  moreover have "valid_period pd df = (\<lambda>r. group_total pd df (timestamp r) \<ge> MIN_TOTAL_GENERATION)"
    by (rule ext) (simp add: valid_period_def)
  ultimately show ?thesis
    using apply_quality_checks_three[OF assms] by simp
qed

lemma group_total_first_pass:
  "group_total pd df t \<ge> MIN_TOTAL_GENERATION \<Longrightarrow>
   group_total pd (map (with_total pd df) (filter (valid_period pd df) df)) t = group_total pd df t"
  unfolding valid_period_def
  by (rule group_total_kept[where P = "\<lambda>t. group_total pd df t \<ge> MIN_TOTAL_GENERATION"])
     (simp_all add: with_total_def)

lemma no_clash_four:
  "\<not> labels_clash [''timestamp'', ''fuel_type'', ''generation_mw'', ''total_generation'']"
  by (simp add: labels_clash_def duplicated_def suffixed_def right_labels_def upt_rec)

lemma columns_first_pass:
  "map (with_total pd df) xs \<noteq> [] \<Longrightarrow>
   columns (map (with_total pd df) xs) = [''timestamp'', ''fuel_type'', ''generation_mw'', ''total_generation'']"
  by (cases xs) (auto simp: columns_def with_total_def)

lemma second_pass:
  fixes pd :: pandas and df :: DataFrame
  defines "Y \<equiv> map (with_total pd df) (filter (valid_period pd df) df)"
  shows "apply_quality_checks pd Y =
     Inr (map (\<lambda>r. r\<lparr>extra := [(''total_generation_x'', Num (group_total pd df (timestamp r))),
                               (''total_generation_y'', Num (group_total pd df (timestamp r)))]\<rparr>) Y)"
proof (cases "Y = []")
  case True
  then show ?thesis by (simp add: apply_quality_checks_def)
next
  case False
  then have cols: "columns Y = [''timestamp'', ''fuel_type'', ''generation_mw'', ''total_generation'']"
    unfolding Y_def by (rule columns_first_pass)
  have valid: "group_total pd Y (timestamp r) = group_total pd df (timestamp r) \<and>
               group_total pd Y (timestamp r) \<ge> MIN_TOTAL_GENERATION
               \<and> extra r = [(''total_generation'', Num (group_total pd df (timestamp r)))]"
    if "r \<in> set Y" for r
    using that unfolding Y_def
    by (auto simp: group_total_first_pass valid_period_def with_total_def)
  have "apply_quality_checks pd Y =
     Inr (map (keep_row pd Y) (filter (\<lambda>r. group_total pd Y (timestamp r) \<ge> MIN_TOTAL_GENERATION) Y))"
    by (rule apply_quality_checks_rows) (simp_all add: cols no_clash_four)
  moreover have "filter (\<lambda>r. group_total pd Y (timestamp r) \<ge> MIN_TOTAL_GENERATION) Y = Y"
  proof -
    have "\<forall>r\<in>set Y. group_total pd Y (timestamp r) \<ge> MIN_TOTAL_GENERATION"
      using valid by blast
    then show ?thesis by (rule filter_True)
  qed
  moreover have "map (keep_row pd Y) Y =
     map (\<lambda>r. r\<lparr>extra := [(''total_generation_x'', Num (group_total pd df (timestamp r))),
                               (''total_generation_y'', Num (group_total pd df (timestamp r)))]\<rparr>) Y"
    by (rule map_cong) (simp_all add: keep_row_def cols valid suffixed_def right_labels_def)
  ultimately show ?thesis by simp
qed

lemma first_output_eq:
  "map (with_total example_pandas two_periods) (filter (valid_period example_pandas two_periods) two_periods) = first_output"
  by (simp add: two_periods_def rec_def with_total_def valid_period_def group_total_def
      example_pandas_def MIN_TOTAL_GENERATION_def first_output_def)

lemma two_periods_three: "\<forall>r\<in>set two_periods. extra r = []"
  by (simp add: two_periods_def rec_def)

lemma apply_two_periods: "apply_quality_checks example_pandas two_periods = Inr first_output"
  using first_pass[OF two_periods_three] by (simp only: first_output_eq)

lemma group_total_two_periods_0: "group_total example_pandas two_periods 0 = 30000"
  by (simp add: two_periods_def rec_def group_total_def example_pandas_def)

lemma apply_first_output: "apply_quality_checks example_pandas first_output = Inr second_output"
proof -
  have "apply_quality_checks example_pandas first_output =
     Inr (map (\<lambda>r. r\<lparr>extra := [(''total_generation_x'', Num (group_total example_pandas two_periods (timestamp r))),
                               (''total_generation_y'', Num (group_total example_pandas two_periods (timestamp r)))]\<rparr>)
            first_output)"
    using second_pass[of example_pandas two_periods] by (simp only: first_output_eq)
  then show ?thesis
    by (simp add: first_output_def second_output_def group_total_two_periods_0)
qed

text \<open>
  C2, as stated, fails: the filter applied to its own output on \<open>two_periods\<close> returns
  a frame with the columns \<^verbatim>\<open>total_generation_x\<close> and \<^verbatim>\<open>total_generation_y\<close> in place of
  \<^verbatim>\<open>total_generation\<close>, which is not the frame it was given.
\<close>

theorem quality_filter_not_idempotent_counterexample:
  "apply_quality_checks example_pandas two_periods = Inr first_output \<and>
   apply_quality_checks example_pandas first_output = Inr second_output \<and>
   second_output \<noteq> first_output"
  using apply_two_periods apply_first_output
  by (simp add: first_output_def second_output_def)

text \<open>
  C2, amended. On every sequence of generation records, the filter applied to its own
  output returns the same records (timestamp, fuel type, generation) in the same order:
  no further row is dropped. The frame is not the same: the second pass carries the
  first total as \<^verbatim>\<open>total_generation_x\<close> and adds the same total as \<^verbatim>\<open>total_generation_y\<close>.
\<close>

theorem quality_filter_idempotent_on_records:
  assumes "\<forall>r\<in>set X. extra r = []"
  shows "\<exists>Y Z. apply_quality_checks pd X = Inr Y \<and> apply_quality_checks pd Y = Inr Z \<and>
           map generation_record Z = map generation_record Y \<and>
           Z = map (\<lambda>r. r\<lparr>extra := [(''total_generation_x'', Num (group_total pd X (timestamp r))),
                                     (''total_generation_y'', Num (group_total pd X (timestamp r)))]\<rparr>) Y"
proof -
  let ?Y = "map (with_total pd X) (filter (valid_period pd X) X)"
  let ?Z = "map (\<lambda>r. r\<lparr>extra := [(''total_generation_x'', Num (group_total pd X (timestamp r))),
                                     (''total_generation_y'', Num (group_total pd X (timestamp r)))]\<rparr>) ?Y"
  have "apply_quality_checks pd X = Inr ?Y" by (rule first_pass[OF assms])
  moreover have "apply_quality_checks pd ?Y = Inr ?Z" by (rule second_pass)
  moreover have "map generation_record ?Z = map generation_record ?Y"
    by (simp add: generation_record_def o_def)
  ultimately show ?thesis by blast
qed

theorem quality_filter_idempotent_on_records_witness:
  "map extra two_periods = [[], [], [], [], []] \<and>
   (\<exists>Y Z. apply_quality_checks example_pandas two_periods = Inr Y \<and> apply_quality_checks example_pandas Y = Inr Z \<and>
      map generation_record Z = map generation_record Y \<and>
      map generation_record Y =
        [(0, ''Fossil Gas'', 15000), (0, ''Nuclear'', 8000), (0, ''Wind Onshore'', 7000)])"
proof -
  have h: "\<forall>r\<in>set two_periods. extra r = []" by (rule two_periods_three)
  obtain Y Z where yz: "apply_quality_checks example_pandas two_periods = Inr Y" "apply_quality_checks example_pandas Y = Inr Z"
      "map generation_record Z = map generation_record Y"
    using quality_filter_idempotent_on_records[OF h, of example_pandas] by blast
  from yz(1) have "Y = first_output" by (simp add: apply_two_periods)
  then have recs: "map generation_record Y =
        [(0, ''Fossil Gas'', 15000), (0, ''Nuclear'', 8000), (0, ''Wind Onshore'', 7000)]"
    by (simp add: first_output_def generation_record_def)
  have three: "map extra two_periods = [[], [], [], [], []]"
    by (simp add: two_periods_def rec_def)
  show ?thesis
    by (rule conjI[OF three], rule exI[of _ Y], rule exI[of _ Z]) (simp only: yz recs)
qed


section \<open>The fetch client: proofs\<close>

lemma try_fetch_eq:
  "try_fetch pd w params = (try_result pd (upstream w (length (requests w)) params), requested params w)"
  by (simp add: try_fetch_def try_result_def make_request_def requested_def
      split: outcome.splits option.splits sum.splits)

lemma requested_simps [simp]:
  "upstream (requested p w) = upstream w"
  "requests (requested p w) = requests w @ [p]"
  "sleeps (requested p w) = sleeps w"
  by (simp_all add: requested_def)

lemma sleep_simps [simp]:
  "upstream (sleep s w) = upstream w"
  "requests (sleep s w) = requests w"
  "sleeps (sleep s w) = sleeps w @ [s]"
  by (simp_all add: sleep_def)

declare retry_loop.simps [simp del]

lemma retry_all_raise:
  assumes "\<And>k. try_result pd (upstream w k params) = Inl (err k)"
    and "attempt < n"
  shows "\<exists>w'. retry_loop pd params n attempt w = (Inl (err (length (requests w) + (n - attempt) - 1)), w') \<and>
           upstream w' = upstream w \<and>
           requests w' = requests w @ replicate (n - attempt) params \<and>
           sleeps w' = sleeps w @ map (\<lambda>i. 2 ^ i) [attempt..<n - 1]"
  using assms
proof (induction "n - attempt" arbitrary: attempt w)
  case 0
  then show ?case by simp
next
  case (Suc d)
  show ?case
  proof (cases "attempt < n - 1")
    case False
    with Suc.prems(2) have last: "attempt = n - 1" by simp
    then have "n - attempt = 1" using Suc.prems(2) by simp
    then show ?thesis
      using Suc.prems False
      by (subst retry_loop.simps) (simp add: try_fetch_eq)
  next
    case True
    let ?w1 = "sleep (2 ^ attempt) (requested params w)"
    have d: "d = n - Suc attempt" using Suc.hyps(2) by simp
    have up: "\<And>k. try_result pd (upstream ?w1 k params) = Inl (err k)"
      using Suc.prems(1) by simp
    have lt: "Suc attempt < n" using True by simp
    obtain w' where w': "retry_loop pd params n (Suc attempt) ?w1 =
          (Inl (err (length (requests ?w1) + (n - Suc attempt) - 1)), w')"
        "upstream w' = upstream ?w1"
        "requests w' = requests ?w1 @ replicate (n - Suc attempt) params"
        "sleeps w' = sleeps ?w1 @ map (\<lambda>i. 2 ^ i) [Suc attempt..<n - 1]"
      using Suc.hyps(1)[OF d up lt] by blast
    have step: "retry_loop pd params n attempt w = retry_loop pd params n (Suc attempt) ?w1"
      using True Suc.prems by (subst retry_loop.simps) (simp add: try_fetch_eq)
    have idx: "length (requests ?w1) + (n - Suc attempt) - 1 = length (requests w) + (n - attempt) - 1"
      using True by simp
    have rep: "requests ?w1 @ replicate (n - Suc attempt) params = requests w @ replicate (n - attempt) params"
      using lt by (simp add: replicate_append_same Suc_diff_Suc flip: replicate_Suc)
    have sl: "sleeps ?w1 @ map (\<lambda>i. 2 ^ i) [Suc attempt..<n - 1]
            = sleeps w @ map (\<lambda>i. 2 ^ i) [attempt..<n - 1]"
      using True by (simp add: upt_conv_Cons)
    have a: "retry_loop pd params n attempt w =
          (Inl (err (length (requests w) + (n - attempt) - 1)), w')"
      using w'(1) unfolding step idx .
    have b: "upstream w' = upstream w" using w'(2) by simp
    have c: "requests w' = requests w @ replicate (n - attempt) params"
      using w'(3) unfolding rep .
    have e: "sleeps w' = sleeps w @ map (\<lambda>i. 2 ^ i) [attempt..<n - 1]"
      using w'(4) unfolding sl .
    from a b c e show ?thesis by blast
  qed
qed

lemma retry_all_status:
  assumes "\<And>k. try_result pd (upstream w k params) = Inr None"
  shows "\<exists>w'. retry_loop pd params n attempt w = (Inl exhausted, w') \<and>
           upstream w' = upstream w \<and>
           requests w' = requests w @ replicate (n - attempt) params \<and>
           sleeps w' = sleeps w"
  using assms
proof (induction "n - attempt" arbitrary: attempt w)
  case 0
  then show ?case by (subst retry_loop.simps) (simp add: exhausted_def)
next
  case (Suc d)
  let ?w1 = "requested params w"
  have lt: "attempt < n" using Suc.hyps(2) by simp
  have d: "d = n - Suc attempt" using Suc.hyps(2) by simp
  have up: "\<And>k. try_result pd (upstream ?w1 k params) = Inr None"
    using Suc.prems by simp
  obtain w' where w': "retry_loop pd params n (Suc attempt) ?w1 = (Inl exhausted, w')"
      "upstream w' = upstream ?w1"
      "requests w' = requests ?w1 @ replicate (n - Suc attempt) params"
      "sleeps w' = sleeps ?w1"
    using Suc.hyps(1)[OF d up] by blast
  have step: "retry_loop pd params n attempt w = retry_loop pd params n (Suc attempt) ?w1"
    using lt Suc.prems by (subst retry_loop.simps) (simp add: try_fetch_eq)
  have rep: "requests ?w1 @ replicate (n - Suc attempt) params = requests w @ replicate (n - attempt) params"
    using lt by (simp add: replicate_append_same Suc_diff_Suc flip: replicate_Suc)
  have a: "retry_loop pd params n attempt w = (Inl exhausted, w')"
    using w'(1) unfolding step .
  have b: "upstream w' = upstream w" using w'(2) by simp
  have c: "requests w' = requests w @ replicate (n - attempt) params"
    using w'(3) unfolding rep .
  have e: "sleeps w' = sleeps w" using w'(4) by simp
  from a b c e show ?case by blast
qed

lemma retry_all_fail:
  assumes "\<And>k df. try_result pd (upstream w k params) \<noteq> Inr (Some df)"
  shows "\<exists>e w'. retry_loop pd params n attempt w = (Inl e, w') \<and>
           requests w' = requests w @ replicate (n - attempt) params"
  using assms
proof (induction "n - attempt" arbitrary: attempt w)
  case 0
  then show ?case by (subst retry_loop.simps) simp
next
  case (Suc d)
  let ?w1 = "requested params w"
  let ?res = "try_result pd (upstream w (length (requests w)) params)"
  have lt: "attempt < n" using Suc.hyps(2) by simp
  have d: "d = n - Suc attempt" using Suc.hyps(2) by simp
  have rep: "params # replicate (n - Suc attempt) params = replicate (n - attempt) params"
  proof -
    have "n - attempt = Suc (n - Suc attempt)" using lt by simp
    then show ?thesis by simp
  qed
  have last: "replicate (n - attempt) params = [params]" if "\<not> attempt < n - 1"
  proof -
    have "n - attempt = Suc 0" using that lt by simp
    then show ?thesis by simp
  qed
  have "(\<exists>e. ?res = Inl e) \<or> ?res = Inr None"
  proof (cases ?res)
    case (Inl e)
    then show ?thesis by blast
  next
    case (Inr b)
    then show ?thesis using Suc.prems[of "length (requests w)"] by (cases b) auto
  qed
  then consider (raise) e where "?res = Inl e" | (status) "?res = Inr None"
    by blast
  then show ?case
  proof cases
    case status
    have up: "\<And>k df. try_result pd (upstream ?w1 k params) \<noteq> Inr (Some df)"
      using Suc.prems by simp
    obtain e w' where w': "retry_loop pd params n (Suc attempt) ?w1 = (Inl e, w')"
        "requests w' = requests ?w1 @ replicate (n - Suc attempt) params"
      using Suc.hyps(1)[OF d up] by blast
    have step: "retry_loop pd params n attempt w = retry_loop pd params n (Suc attempt) ?w1"
      using lt status by (subst retry_loop.simps) (simp add: try_fetch_eq)
    from w' show ?thesis unfolding step by (simp add: rep)
  next
    case (raise e)
    show ?thesis
    proof (cases "attempt < n - 1")
      case False
      have "retry_loop pd params n attempt w = (Inl e, ?w1)"
        using lt raise False by (subst retry_loop.simps) (simp add: try_fetch_eq)
      then show ?thesis using last[OF False] by simp
    next
      case True
      let ?w2 = "sleep (2 ^ attempt) ?w1"
      have up: "\<And>k df. try_result pd (upstream ?w2 k params) \<noteq> Inr (Some df)"
        using Suc.prems by simp
      obtain e' w' where w': "retry_loop pd params n (Suc attempt) ?w2 = (Inl e', w')"
          "requests w' = requests ?w2 @ replicate (n - Suc attempt) params"
        using Suc.hyps(1)[OF d up] by blast
      have step: "retry_loop pd params n attempt w = retry_loop pd params n (Suc attempt) ?w2"
        using lt raise True by (subst retry_loop.simps) (simp add: try_fetch_eq)
      from w' show ?thesis unfolding step by (simp add: rep)
    qed
  qed
qed

lemma strftime_jan1: "strftime jan1 = ''2024-01-01T00:00:00Z''"
  by (simp add: strftime_def jan1_def four_digits_def two_digits_def digit_def)

lemma strftime_jan2: "strftime jan2 = ''2024-01-02T00:00:00Z''"
  by (simp add: strftime_def jan2_def four_digits_def two_digits_def digit_def)

lemma parse_good_body:
  "parse_response example_pandas good_body =
     Inr [\<lparr>timestamp = 1704067200000000000, fuel_type = ''Nuclear'', generation_mw = 30000, extra = []\<rparr>]"
  by (simp add: parse_response_def good_body_def example_pandas_def)


lemma try_good_body:
  "try_result example_pandas (Returns \<lparr>status_code = 200, body = Some good_body\<rparr>) = Inr (Some good_frame)"
proof -
  have "apply_quality_checks example_pandas [\<lparr>timestamp = 1704067200000000000, fuel_type = ''Nuclear'',
          generation_mw = 30000, extra = []\<rparr>] = Inr good_frame"
    by (subst apply_quality_checks_three)
       (simp_all add: good_frame_def group_total_def example_pandas_def MIN_TOTAL_GENERATION_def)
  then show ?thesis by (simp add: try_result_def parse_good_body)
qed


lemma try_result_failed:
  "failed_call out \<Longrightarrow> try_result pd out \<noteq> Inr (Some df)"
  by (auto simp: failed_call_def try_result_def split: outcome.splits)

text \<open>
  C3, amended. With three attempts allowed and every upstream call failing, the fetch
  makes exactly three requests and raises. When every call raises, it sleeps 1 and then
  2 seconds between the attempts, and the exception it raises is the one of the third
  call itself. When every call returns a status other than 200, it raises the final
  exception of the loop.
\<close>

theorem three_failing_attempts:
  assumes "\<And>k p. failed_call (upstream w k p)"
  shows "\<exists>e w'. fetch_generation_data pd w start_date end_date 3 = (Inl e, w') \<and>
           requests w' = requests w @ replicate 3 (request_params start_date end_date) \<and>
           ((\<forall>k p. \<exists>x. upstream w k p = Raises x) \<longrightarrow>
              sleeps w' = sleeps w @ [1, 2] \<and>
              upstream w (length (requests w) + 2) (request_params start_date end_date) = Raises e) \<and>
           ((\<forall>k p. \<exists>r. upstream w k p = Returns r) \<longrightarrow> e = exhausted)"
proof -
  let ?p = "request_params start_date end_date"
  obtain e w' where res: "retry_loop pd ?p 3 0 w = (Inl e, w')"
      "requests w' = requests w @ replicate (3 - 0) ?p"
    using retry_all_fail[of pd w ?p 3 0] try_result_failed[OF assms] by blast
  have raising: "sleeps w' = sleeps w @ [1, 2] \<and> upstream w (length (requests w) + 2) ?p = Raises e"
    if all: "\<forall>k p. \<exists>x. upstream w k p = Raises x"
  proof -
    define err where "err k = (case upstream w k ?p of Raises x \<Rightarrow> x | _ \<Rightarrow> exhausted)" for k
    have up: "upstream w k ?p = Raises (err k)" for k
      using all[rule_format, of k ?p] by (auto simp: err_def)
    then have "try_result pd (upstream w k ?p) = Inl (err k)" for k
      by (simp add: try_result_def)
    from retry_all_raise[of pd w ?p err 0 3, OF this]
    obtain w'' where "retry_loop pd ?p 3 0 w = (Inl (err (length (requests w) + (3 - 0) - 1)), w'')"
        "sleeps w'' = sleeps w @ map (\<lambda>i. 2 ^ i) [0..<3 - 1]"
      by auto
    with res(1) have "e = err (length (requests w) + 2)" "sleeps w' = sleeps w @ map (\<lambda>i. 2 ^ i) [0..<2]"
      by simp_all
    then show ?thesis using up[of "length (requests w) + 2"] by (simp add: upt_rec)
  qed
  have status: "e = exhausted" if all: "\<forall>k p. \<exists>r. upstream w k p = Returns r"
  proof -
    have "try_result pd (upstream w k ?p) = Inr None" for k
      using all[rule_format, of k ?p] assms[of k ?p]
      by (auto simp: try_result_def failed_call_def)
    from retry_all_status[of pd w ?p 3 0, OF this] res(1) show ?thesis by auto
  qed
  show ?thesis
    using res raising status by (simp add: fetch_generation_data_def)
qed

lemma fetch_timeouts:
  "\<exists>w'. fetch_generation_data example_pandas timeouts jan1 jan2 3 = (Inl (RequestException ''timeout''), w') \<and>
     requests w' = replicate 3 (request_params jan1 jan2) \<and> sleeps w' = [1, 2]"
proof -
  have "try_result example_pandas (upstream timeouts k (request_params jan1 jan2))
        = Inl ((\<lambda>k. RequestException ''timeout'') k)" for k
    by (simp add: try_result_def timeouts_def)
  from retry_all_raise[of example_pandas timeouts "request_params jan1 jan2" _ 0 3, OF this]
  show ?thesis
    by (auto simp: fetch_generation_data_def timeouts_def upt_rec)
qed

lemma fetch_unavailable:
  "\<exists>w'. fetch_generation_data example_pandas unavailable jan1 jan2 3 = (Inl exhausted, w') \<and>
     requests w' = replicate 3 (request_params jan1 jan2) \<and> sleeps w' = []"
proof -
  have "try_result example_pandas (upstream unavailable k (request_params jan1 jan2)) = Inr None" for k
    by (simp add: try_result_def unavailable_def)
  from retry_all_status[of example_pandas unavailable "request_params jan1 jan2" 3 0, OF this]
  show ?thesis
    by (auto simp: fetch_generation_data_def unavailable_def)
qed

text \<open>
  C3, as stated, fails: against an upstream that always answers 503 the three attempts
  are made without any sleep, and against one that always times out the exception raised
  after the sleeps of 1 and 2 seconds is the timeout itself, not the final exception.
\<close>

theorem three_failing_attempts_counterexample:
  "fst (fetch_generation_data example_pandas unavailable jan1 jan2 3) = Inl exhausted \<and>
   sleeps (snd (fetch_generation_data example_pandas unavailable jan1 jan2 3)) = [] \<and>
   fst (fetch_generation_data example_pandas timeouts jan1 jan2 3) = Inl (RequestException ''timeout'') \<and>
   sleeps (snd (fetch_generation_data example_pandas timeouts jan1 jan2 3)) = [1, 2] \<and>
   RequestException ''timeout'' \<noteq> exhausted"
  using fetch_timeouts fetch_unavailable by (auto simp: exhausted_def)

theorem three_failing_attempts_witness:
  "failed_call (Raises (RequestException ''timeout'')) \<and>
   failed_call (Returns \<lparr>status_code = 503, body = None\<rparr>) \<and>
   (\<exists>e w'. fetch_generation_data example_pandas timeouts jan1 jan2 3 = (Inl e, w') \<and>
      length (requests w') = 3 \<and> sleeps w' = [1, 2] \<and> e = RequestException ''timeout'') \<and>
   (\<exists>e w'. fetch_generation_data example_pandas unavailable jan1 jan2 3 = (Inl e, w') \<and>
      length (requests w') = 3 \<and> e = exhausted)"
proof -
  have f1: "failed_call (upstream timeouts k p)" for k p
    by (simp add: failed_call_def timeouts_def)
  have f2: "failed_call (upstream unavailable k p)" for k p
    by (simp add: failed_call_def unavailable_def)
  have a1: "\<forall>k p. \<exists>x. upstream timeouts k p = Raises x" by (simp add: timeouts_def)
  have a2: "\<forall>k p. \<exists>r. upstream unavailable k p = Returns r" by (simp add: unavailable_def)
  obtain e1 w1 where 1: "fetch_generation_data example_pandas timeouts jan1 jan2 3 = (Inl e1, w1)"
      "requests w1 = requests timeouts @ replicate 3 (request_params jan1 jan2)"
      "sleeps w1 = sleeps timeouts @ [1, 2]"
      "upstream timeouts (length (requests timeouts) + 2) (request_params jan1 jan2) = Raises e1"
    using three_failing_attempts[of timeouts example_pandas jan1 jan2, OF f1] a1 by blast
  obtain e2 w2 where 2: "fetch_generation_data example_pandas unavailable jan1 jan2 3 = (Inl e2, w2)"
      "requests w2 = requests unavailable @ replicate 3 (request_params jan1 jan2)"
      "e2 = exhausted"
    using three_failing_attempts[of unavailable example_pandas jan1 jan2, OF f2] a2 by blast
  have "length (requests w1) = 3" "sleeps w1 = [1, 2]" "e1 = RequestException ''timeout''"
    using 1 by (simp_all add: timeouts_def)
  moreover have "length (requests w2) = 3" using 2 by (simp add: unavailable_def)
  ultimately show ?thesis
    using 1(1) 2(1) 2(3) by (simp add: failed_call_def)
qed






lemma retry_requests_grow:
  "\<exists>rest. requests (snd (retry_loop pd params n attempt w)) = requests w @ rest"
proof (induction "n - attempt" arbitrary: attempt w)
  case 0
  then show ?case by (subst retry_loop.simps) simp
next
  case (Suc d)
  let ?res = "try_result pd (upstream w (length (requests w)) params)"
  let ?w1 = "requested params w"
  have lt: "attempt < n" using Suc.hyps(2) by simp
  have d: "d = n - Suc attempt" using Suc.hyps(2) by simp
  note IH = Suc.hyps(1)[OF d]
  show ?case
  proof (cases ?res)
    case (Inl e)
    show ?thesis
    proof (cases "attempt < n - 1")
      case True
      obtain rest where "requests (snd (retry_loop pd params n (Suc attempt) (sleep (2 ^ attempt) ?w1)))
                = requests (sleep (2 ^ attempt) ?w1) @ rest"
        using IH by blast
      then show ?thesis
        using lt Inl True by (subst retry_loop.simps) (simp add: try_fetch_eq)
    next
      case False
      then show ?thesis
        using lt Inl by (subst retry_loop.simps) (simp add: try_fetch_eq)
    qed
  next
    case (Inr b)
    show ?thesis
    proof (cases b)
      case None
      obtain rest where "requests (snd (retry_loop pd params n (Suc attempt) ?w1)) = requests ?w1 @ rest"
        using IH by blast
      then show ?thesis
        using lt Inr None by (subst retry_loop.simps) (simp add: try_fetch_eq)
    next
      case (Some df)
      then show ?thesis
        using lt Inr by (subst retry_loop.simps) (simp add: try_fetch_eq)
    qed
  qed
qed

lemma retry_first_request:
  assumes "attempt < n"
  shows "\<exists>rest. requests (snd (retry_loop pd params n attempt w)) = requests w @ params # rest"
proof -
  let ?res = "try_result pd (upstream w (length (requests w)) params)"
  let ?w1 = "requested params w"
  show ?thesis
  proof (cases ?res)
    case (Inl e)
    show ?thesis
    proof (cases "attempt < n - 1")
      case True
      obtain rest where "requests (snd (retry_loop pd params n (Suc attempt) (sleep (2 ^ attempt) ?w1)))
                = requests (sleep (2 ^ attempt) ?w1) @ rest"
        using retry_requests_grow by blast
      then show ?thesis
        using assms Inl True by (subst retry_loop.simps) (simp add: try_fetch_eq)
    next
      case False
      then show ?thesis
        using assms Inl by (subst retry_loop.simps) (simp add: try_fetch_eq)
    qed
  next
    case (Inr b)
    show ?thesis
    proof (cases b)
      case None
      obtain rest where "requests (snd (retry_loop pd params n (Suc attempt) ?w1)) = requests ?w1 @ rest"
        using retry_requests_grow by blast
      then show ?thesis
        using assms Inr None by (subst retry_loop.simps) (simp add: try_fetch_eq)
    next
      case (Some df)
      then show ?thesis
        using assms Inr by (subst retry_loop.simps) (simp add: try_fetch_eq)
    qed
  qed
qed

text \<open>
  C8, amended. \<^verbatim>\<open>fetch_generation_data\<close> does not compare its two bounds: for every start
  and end, in any order, with at least one attempt allowed, its first action is the GET
  with the two bounds formatted.
\<close>

theorem request_issued_for_any_range:
  assumes "0 < retry_attempts"
  shows "\<exists>rest. requests (snd (fetch_generation_data pd w start_date end_date retry_attempts)) =
           requests w @ (strftime start_date, strftime end_date) # rest"
  using retry_first_request[OF assms] by (simp add: fetch_generation_data_def request_params_def)

lemma fetch_always_good:
  "fetch_generation_data example_pandas always_good s e 3 =
     (Inr good_frame, requested (request_params s e) always_good)"
  unfolding fetch_generation_data_def
  by (subst retry_loop.simps) (simp add: try_fetch_eq always_good_def try_good_body)

text \<open>
  C8, as stated, fails: with the start a day after the end, and with the start equal to
  the end, the request is issued, and the frame of the response is returned.
\<close>

theorem request_issued_for_any_range_counterexample:
  "datetime_less jan1 jan2 \<and>
   fst (fetch_generation_data example_pandas always_good jan2 jan1 3) = Inr good_frame \<and>
   requests (snd (fetch_generation_data example_pandas always_good jan2 jan1 3)) =
     [(''2024-01-02T00:00:00Z'', ''2024-01-01T00:00:00Z'')] \<and>
   requests (snd (fetch_generation_data example_pandas always_good jan1 jan1 3)) =
     [(''2024-01-01T00:00:00Z'', ''2024-01-01T00:00:00Z'')]"
  by (simp add: fetch_always_good request_params_def strftime_jan1 strftime_jan2)
     (simp add: always_good_def datetime_less_def timetuple_def jan1_def jan2_def)

theorem request_issued_for_any_range_witness:
  "(0::nat) < 3 \<and>
   (\<exists>rest. requests (snd (fetch_generation_data example_pandas always_good jan2 jan1 3)) =
      (''2024-01-02T00:00:00Z'', ''2024-01-01T00:00:00Z'') # rest)"
proof -
  have h: "(0::nat) < 3" by simp
  from request_issued_for_any_range[OF h, of example_pandas always_good jan2 jan1]
  show ?thesis by (simp add: strftime_jan1 strftime_jan2 always_good_def)
qed

section \<open>The request parameters: proofs\<close>








lemma strftime_layout:
  "strftime d =
     [digit (year d div 1000), digit (year d div 100), digit (year d div 10), digit (year d),
      CHR ''-'', digit (month d div 10), digit (month d), CHR ''-'',
      digit (day d div 10), digit (day d), CHR ''T'',
      digit (hour d div 10), digit (hour d), CHR '':'',
      digit (minute d div 10), digit (minute d), CHR '':'',
      digit (second d div 10), digit (second d), CHR ''Z'']"
  by (simp add: strftime_def four_digits_def two_digits_def)











section \<open>The chunked historical fetch: proofs\<close>

declare sub_windows.simps [simp del]
declare historical_loop.simps [simp del]

lemma chunk_pos: "0 < chunk_size * DAY"
  by (simp add: chunk_size_def DAY_def)

lemma sub_windows_step:
  "s < e \<Longrightarrow> sub_windows s e =
     (s, min (s + chunk_size * DAY) e) # sub_windows (min (s + chunk_size * DAY) e) e"
  by (subst sub_windows.simps) simp

lemma sub_windows_done: "\<not> s < e \<Longrightarrow> sub_windows s e = []"
  by (subst sub_windows.simps) simp

lemma sub_windows_hd: "s < e \<Longrightarrow> sub_windows s e \<noteq> [] \<and> fst (hd (sub_windows s e)) = s"
  by (simp add: sub_windows_step)

lemma sub_windows_last: "s < e \<Longrightarrow> snd (last (sub_windows s e)) = e"
proof (induction s e rule: sub_windows.induct)
  case (1 s e)
  let ?m = "min (s + chunk_size * DAY) e"
  show ?case
  proof (cases "?m < e")
    case True
    then have "snd (last (sub_windows ?m e)) = e" using "1.IH" "1.prems" by simp
    moreover have "sub_windows ?m e \<noteq> []" using True by (simp add: sub_windows_hd)
    ultimately show ?thesis using "1.prems" by (simp add: sub_windows_step[of s e])
  next
    case False
    then have "?m = e" by simp
    then show ?thesis
      using "1.prems" by (simp add: sub_windows_step[of s e] sub_windows_done)
  qed
qed

lemma sub_windows_bounds:
  "(a, b) \<in> set (sub_windows s e) \<Longrightarrow> s \<le> a \<and> a < b \<and> b \<le> e \<and> b - a \<le> chunk_size * DAY"
proof (induction s e rule: sub_windows.induct)
  case (1 s e)
  let ?m = "min (s + chunk_size * DAY) e"
  have lt: "s < e" using "1.prems" by (cases "s < e") (simp_all add: sub_windows_done)
  from "1.prems" have "(a, b) = (s, ?m) \<or> (a, b) \<in> set (sub_windows ?m e)"
    by (simp add: sub_windows_step[OF lt])
  then show ?case
  proof
    assume "(a, b) = (s, ?m)"
    then show ?thesis using lt chunk_pos by auto
  next
    assume "(a, b) \<in> set (sub_windows ?m e)"
    then have "?m \<le> a \<and> a < b \<and> b \<le> e \<and> b - a \<le> chunk_size * DAY"
      using "1.IH"[OF lt] by simp
    moreover have "s \<le> ?m" using lt chunk_pos by simp
    ultimately have "s \<le> a \<and> a < b \<and> b \<le> e \<and> b - a \<le> chunk_size * DAY"
      using order_trans[of s ?m a] by blast
    then show ?thesis .
  qed
qed

lemma sub_windows_chain:
  "Suc i < length (sub_windows s e) \<Longrightarrow>
   snd (sub_windows s e ! i) = fst (sub_windows s e ! Suc i) \<and>
   snd (sub_windows s e ! i) - fst (sub_windows s e ! i) = chunk_size * DAY"
proof (induction s e arbitrary: i rule: sub_windows.induct)
  case (1 s e)
  let ?m = "min (s + chunk_size * DAY) e"
  have lt: "s < e" using "1.prems" by (cases "s < e") (simp_all add: sub_windows_done)
  have len: "i < length (sub_windows ?m e)"
    using "1.prems" by (simp add: sub_windows_step[OF lt])
  then have more: "?m < e" by (cases "?m < e") (simp_all add: sub_windows_done)
  show ?case
  proof (cases i)
    case 0
    have m: "?m = s + chunk_size * DAY" using more by simp
    have "fst (sub_windows ?m e ! 0) = ?m"
      using sub_windows_hd[OF more] by (metis hd_conv_nth)
    then show ?thesis
      using 0 m by (simp add: sub_windows_step[OF lt])
  next
    case (Suc j)
    then have "Suc j < length (sub_windows ?m e)" using len by simp
    from "1.IH"[OF lt this] show ?thesis
      by (simp add: Suc sub_windows_step[OF lt])
  qed
qed

lemma sub_windows_ordered:
  "i < j \<Longrightarrow> j < length (sub_windows s e) \<Longrightarrow>
   snd (sub_windows s e ! i) \<le> fst (sub_windows s e ! j)"
proof (induction s e arbitrary: i j rule: sub_windows.induct)
  case (1 s e)
  let ?m = "min (s + chunk_size * DAY) e"
  have lt: "s < e" using "1.prems" by (cases "s < e") (simp_all add: sub_windows_done)
  obtain j' where j: "j = Suc j'" using "1.prems"(1) by (cases j) auto
  then have j'len: "j' < length (sub_windows ?m e)"
    using "1.prems"(2) by (simp add: sub_windows_step[OF lt])
  show ?case
  proof (cases i)
    case 0
    have "sub_windows ?m e ! j' \<in> set (sub_windows ?m e)" using j'len by simp
    then have "?m \<le> fst (sub_windows ?m e ! j')"
      using sub_windows_bounds[of "fst (sub_windows ?m e ! j')" "snd (sub_windows ?m e ! j')" ?m e]
      by simp
    then show ?thesis by (simp add: 0 j sub_windows_step[OF lt])
  next
    case (Suc i')
    then have "i' < j'" using "1.prems"(1) j by simp
    from "1.IH"[OF lt this j'len] show ?thesis
      by (simp add: Suc j sub_windows_step[OF lt])
  qed
qed

lemma sub_windows_cover:
  "s \<le> e \<Longrightarrow> (\<Union>(a, b) \<in> set (sub_windows s e). {a..<b}) = {s..<e}"
proof (induction s e rule: sub_windows.induct)
  case (1 s e)
  let ?m = "min (s + chunk_size * DAY) e"
  show ?case
  proof (cases "s < e")
    case False
    then show ?thesis using "1.prems" by (simp add: sub_windows_done)
  next
    case True
    have sm: "s \<le> ?m" "?m \<le> e" using True chunk_pos by simp_all
    have "(\<Union>(a, b) \<in> set (sub_windows ?m e). {a..<b}) = {?m..<e}"
      using "1.IH"[OF True sm(2)] .
    then have "(\<Union>(a, b) \<in> set (sub_windows s e). {a..<b}) = {s..<?m} \<union> {?m..<e}"
      by (simp add: sub_windows_step[OF True])
    also have "\<dots> = {s..<e}" using sm by (rule ivl_disj_un_two)
    finally show ?thesis .
  qed
qed

lemma sub_windows_two:
  "chunk_size * DAY < e - s \<Longrightarrow> 2 \<le> length (sub_windows s e)"
proof -
  assume a: "chunk_size * DAY < e - s"
  then have lt: "s < e" using chunk_pos by simp
  have m: "min (s + chunk_size * DAY) e = s + chunk_size * DAY" using a by simp
  have "s + chunk_size * DAY < e" using a by simp
  then show ?thesis
    by (simp add: sub_windows_step[OF lt] m sub_windows_step[of "s + chunk_size * DAY" e])
qed

lemma sub_windows_ten_days:
  "sub_windows s (s + 10 * DAY) = [(s, s + 7 * DAY), (s + 7 * DAY, s + 10 * DAY)]"
proof -
  have 1: "s < s + 10 * DAY" by (simp add: DAY_def)
  have 2: "min (s + chunk_size * DAY) (s + 10 * DAY) = s + 7 * DAY"
    by (simp add: chunk_size_def DAY_def)
  have 3: "s + 7 * DAY < s + 10 * DAY" by (simp add: DAY_def)
  have 4: "min (s + 7 * DAY + chunk_size * DAY) (s + 10 * DAY) = s + 10 * DAY"
    by (simp add: chunk_size_def DAY_def)
  show ?thesis
    by (simp add: sub_windows_step[OF 1] 2 sub_windows_step[OF 3] 4 sub_windows_done)
qed

lemma historical_loop_refines:
  assumes "0 \<le> s" and "e + chunk_size * DAY \<le> MAX_INSTANT"
  shows "historical_loop pd s e outputs w = fetch_windows pd (sub_windows s e) outputs w"
  using assms
proof (induction s e arbitrary: outputs w rule: sub_windows.induct)
  case (1 s e)
  let ?m = "min (s + chunk_size * DAY) e"
  show ?case
  proof (cases "s < e")
    case False
    then show ?thesis
      by (subst historical_loop.simps) (simp add: sub_windows_done)
  next
    case True
    have rep: "representable (s + chunk_size * DAY)"
      using True "1.prems" chunk_pos by (simp add: representable_def)
    have m0: "0 \<le> ?m" using "1.prems"(1) True chunk_pos by simp
    have IH: "historical_loop pd ?m e outs w1 = fetch_windows pd (sub_windows ?m e) outs w1" for outs w1
      using "1.IH"[OF True m0 "1.prems"(2)] .
    show ?thesis
      by (subst historical_loop.simps)
         (simp add: True rep sub_windows_step[OF True] IH split: prod.splits sum.splits)
  qed
qed

lemma fetch_windows_length:
  "fetch_windows pd ws outputs w = (Inr all_data, w1) \<Longrightarrow>
   length all_data = length outputs + length ws"
proof (induction ws arbitrary: outputs w)
  case Nil
  then show ?case by simp
next
  case (Cons x ws)
  obtain a b where x: "x = (a, b)" by (cases x)
  show ?case
  proof (cases "fetch_generation_data pd w (datetime_of a) (datetime_of b) 3")
    case (Pair r w')
    show ?thesis
    proof (cases r)
      case (Inl e)
      then show ?thesis using Cons.prems Pair x by simp
    next
      case (Inr df)
      then have "fetch_windows pd ws (outputs @ [df]) (sleep 1 w') = (Inr all_data, w1)"
        using Cons.prems Pair x by simp
      from Cons.IH[OF this] show ?thesis by simp
    qed
  qed
qed

text \<open>
  C5. For a span of more than seven days (and datetimes that Python can represent), the
  sub-windows that \<^verbatim>\<open>fetch_historical_data\<close> walks through are at least two, begin at the start
  and end at the end, each ends where the next begins, each but the last is seven days
  long and none is longer, no two overlap, and together they cover the span exactly; ten
  days give the two windows of seven and three days. The loop fetches these windows one
  after the other, and its result is the concatenation of their outputs in that order.
\<close>

theorem historical_windows_partition:
  assumes "7 < days" and "days \<le> 999999999"
    and "representable (now - days * DAY)"
    and "now + chunk_size * DAY \<le> MAX_INSTANT"
  shows "let start = now - days * DAY; ws = sub_windows start now in
           2 \<le> length ws \<and> fst (hd ws) = start \<and> snd (last ws) = now \<and>
           (\<forall>i. Suc i < length ws \<longrightarrow>
                  snd (ws ! i) = fst (ws ! Suc i) \<and> snd (ws ! i) - fst (ws ! i) = 7 * DAY) \<and>
           (\<forall>(a, b) \<in> set ws. a < b \<and> b - a \<le> 7 * DAY) \<and>
           (\<forall>i j. i < j \<and> j < length ws \<longrightarrow> snd (ws ! i) \<le> fst (ws ! j)) \<and>
           (\<Union>(a, b) \<in> set ws. {a..<b}) = {start..<now} \<and>
           (days = 10 \<longrightarrow> ws = [(start, start + 7 * DAY), (start + 7 * DAY, start + 10 * DAY)]) \<and>
           fetch_historical_data pd w now days =
             (case fetch_windows pd ws [] w of
                (Inl e, w1) \<Rightarrow> (Inl e, w1)
              | (Inr outputs, w1) \<Rightarrow> (Inr (concat outputs), w1))"
proof -
  define start where "start = now - days * DAY"
  define ws where "ws = sub_windows start now"
  have c7: "chunk_size * DAY = 7 * DAY" by (simp add: chunk_size_def)
  have span: "chunk_size * DAY < now - start"
    using assms(1) by (simp add: start_def chunk_size_def DAY_def)
  then have lt: "start < now" using chunk_pos by simp
  have 1: "2 \<le> length ws" unfolding ws_def by (rule sub_windows_two[OF span])
  have 2: "fst (hd ws) = start" unfolding ws_def using sub_windows_hd[OF lt] by simp
  have 3: "snd (last ws) = now" unfolding ws_def by (rule sub_windows_last[OF lt])
  have 4: "\<forall>i. Suc i < length ws \<longrightarrow>
                  snd (ws ! i) = fst (ws ! Suc i) \<and> snd (ws ! i) - fst (ws ! i) = 7 * DAY"
    unfolding ws_def using sub_windows_chain[of _ start now] unfolding c7 by blast
  have 5: "\<forall>(a, b) \<in> set ws. a < b \<and> b - a \<le> 7 * DAY"
    unfolding ws_def using sub_windows_bounds[of _ _ start now] by (auto simp: c7)
  have 6: "\<forall>i j. i < j \<and> j < length ws \<longrightarrow> snd (ws ! i) \<le> fst (ws ! j)"
    unfolding ws_def using sub_windows_ordered[of _ _ start now] by blast
  have 7: "(\<Union>(a, b) \<in> set ws. {a..<b}) = {start..<now}"
    unfolding ws_def using sub_windows_cover[of start now] lt by simp
  have 8: "days = 10 \<longrightarrow> ws = [(start, start + 7 * DAY), (start + 7 * DAY, start + 10 * DAY)]"
  proof
    assume "days = 10"
    then have "now = start + 10 * DAY" by (simp add: start_def)
    then show "ws = [(start, start + 7 * DAY), (start + 7 * DAY, start + 10 * DAY)]"
      unfolding ws_def by (simp add: sub_windows_ten_days)
  qed
  have s0: "0 \<le> start" using assms(3) by (simp add: representable_def start_def)
  have loop: "historical_loop pd start now [] w = fetch_windows pd ws [] w"
    unfolding ws_def by (rule historical_loop_refines[OF s0 assms(4)])
  have nonempty: "all_data \<noteq> []" if "fetch_windows pd ws [] w = (Inr all_data, w1)" for all_data w1
    using fetch_windows_length[OF that] 1 by auto
  have 9: "fetch_historical_data pd w now days =
             (case fetch_windows pd ws [] w of
                (Inl e, w1) \<Rightarrow> (Inl e, w1)
              | (Inr outputs, w1) \<Rightarrow> (Inr (concat outputs), w1))"
    using assms(1,2,3) loop nonempty
    by (auto simp: fetch_historical_data_def start_def[symmetric] split: prod.splits sum.splits)
  from 1 2 3 4 5 6 7 8 9 show ?thesis
    unfolding Let_def start_def[symmetric] ws_def[symmetric] by blast
qed

text \<open>
  C10. With a number of days of zero or less, \<^verbatim>\<open>fetch_historical_data\<close> fetches nothing,
  sleeps nothing and raises: the ValueError of \<^verbatim>\<open>pd.concat\<close> on an empty list, whenever the
  start can be computed at all.
\<close>

theorem historical_fetch_of_no_days_raises:
  assumes "days \<le> 0"
  shows "\<exists>e. fetch_historical_data pd w now days = (Inl e, w) \<and>
           (- 999999999 \<le> days \<and> representable (now - days * DAY) \<longrightarrow>
              e = ValueError ''No objects to concatenate'')"
proof -
  have "\<not> now - days * DAY < now" using assms by (simp add: DAY_def mult_le_0_iff)
  then have "historical_loop pd (now - days * DAY) now [] w = (Inr [], w)"
    by (subst historical_loop.simps) simp
  then show ?thesis
    using assms by (auto simp: fetch_historical_data_def)
qed

lemma ord_jan1: "ord2ymd 738886 = (2024, 1, 1)"
  by (simp add: ord2ymd_def Let_def)

lemma ord_jan8: "ord2ymd 738893 = (2024, 1, 8)"
  by (simp add: ord2ymd_def Let_def)

lemma ord_jan11: "ord2ymd 738896 = (2024, 1, 11)"
  by (simp add: ord2ymd_def Let_def)

lemma midnight:
  "datetime_of (int k * DAY) =
     (case ord2ymd (k + 1) of
        (y, m, d) \<Rightarrow> \<lparr>year = y, month = m, day = d, hour = 0, minute = 0, second = 0, microsecond = 0,
                      tzinfo = None\<rparr>)"
  by (simp add: datetime_of_def DAY_def)

lemma datetime_of_jan1: "datetime_of (738885 * DAY) = jan1"
  using midnight[of 738885] by (simp add: ord_jan1 jan1_def)

lemma datetime_of_jan8: "datetime_of (738892 * DAY) = jan8"
  using midnight[of 738892] by (simp add: ord_jan8 jan8_def)

lemma datetime_of_jan11: "datetime_of (738895 * DAY) = jan11"
  using midnight[of 738895] by (simp add: ord_jan11 jan11_def)

lemma strftime_jan8: "strftime jan8 = ''2024-01-08T00:00:00Z''"
  by (simp add: strftime_layout jan8_def digit_def)

lemma strftime_jan11: "strftime jan11 = ''2024-01-11T00:00:00Z''"
  by (simp add: strftime_layout jan11_def digit_def)

lemma fetch_good:
  assumes "upstream w = upstream always_good"
  shows "fetch_generation_data example_pandas w s e 3 =
           (Inr good_frame, requested (request_params s e) w)"
proof -
  have "try_result example_pandas (upstream w k p) = Inr (Some good_frame)" for k p
    by (simp add: assms always_good_def try_good_body)
  then show ?thesis
    unfolding fetch_generation_data_def
    by (subst retry_loop.simps) (simp add: try_fetch_eq)
qed

lemma fetch_two_windows:
  "fetch_windows example_pandas [(738885 * DAY, 738892 * DAY), (738892 * DAY, 738895 * DAY)] [] always_good =
     (Inr [good_frame, good_frame], two_chunks_world)"
  by (simp add: datetime_of_jan1 datetime_of_jan8 datetime_of_jan11 fetch_good two_chunks_world_def)

lemma two_chunks_world_simps:
  "requests two_chunks_world =
     [(''2024-01-01T00:00:00Z'', ''2024-01-08T00:00:00Z''),
      (''2024-01-08T00:00:00Z'', ''2024-01-11T00:00:00Z'')]"
  "sleeps two_chunks_world = [1, 1]"
  by (simp_all add: two_chunks_world_def request_params_def strftime_jan1 strftime_jan8
      strftime_jan11 always_good_def)

theorem historical_windows_partition_witness:
  "(7::int) < 10 \<and> (10::int) \<le> 999999999 \<and> representable (738895 * DAY - 10 * DAY) \<and>
   738895 * DAY + chunk_size * DAY \<le> MAX_INSTANT \<and>
   sub_windows (738885 * DAY) (738895 * DAY) =
     [(738885 * DAY, 738892 * DAY), (738892 * DAY, 738895 * DAY)] \<and>
   fetch_historical_data example_pandas always_good (738895 * DAY) 10 =
     (Inr (good_frame @ good_frame), two_chunks_world) \<and>
   requests two_chunks_world =
     [(''2024-01-01T00:00:00Z'', ''2024-01-08T00:00:00Z''),
      (''2024-01-08T00:00:00Z'', ''2024-01-11T00:00:00Z'')] \<and>
   sleeps two_chunks_world = [1, 1]"
proof -
  have h1: "(7::int) < 10" and h2: "(10::int) \<le> 999999999" by simp_all
  have h3: "representable (738895 * DAY - 10 * DAY)"
    by (simp add: representable_def MAX_INSTANT_def DAY_def)
  have h4: "738895 * DAY + chunk_size * DAY \<le> MAX_INSTANT"
    by (simp add: MAX_INSTANT_def DAY_def chunk_size_def)
  have start: "738895 * DAY - 10 * DAY = 738885 * DAY" by (simp add: DAY_def)
  have w1: "738885 * DAY + 7 * DAY = 738892 * DAY" and w2: "738885 * DAY + 10 * DAY = 738895 * DAY"
    by (simp_all add: DAY_def)
  note inst = historical_windows_partition[OF h1 h2 h3 h4, of example_pandas always_good,
      unfolded Let_def start w1 w2]
  from inst have ws: "sub_windows (738885 * DAY) (738895 * DAY) =
     [(738885 * DAY, 738892 * DAY), (738892 * DAY, 738895 * DAY)]"
    by blast
  from inst have "fetch_historical_data example_pandas always_good (738895 * DAY) 10 =
      (case fetch_windows example_pandas (sub_windows (738885 * DAY) (738895 * DAY)) [] always_good of
         (Inl e, w1) \<Rightarrow> (Inl e, w1)
       | (Inr outputs, w1) \<Rightarrow> (Inr (concat outputs), w1))"
    by blast
  then have res: "fetch_historical_data example_pandas always_good (738895 * DAY) 10 =
     (Inr (good_frame @ good_frame), two_chunks_world)"
    unfolding ws fetch_two_windows by simp
  show ?thesis
    using h3 h4 ws res two_chunks_world_simps by simp
qed

theorem historical_fetch_of_no_days_raises_witness:
  "(0::int) \<le> 0 \<and> - 999999999 \<le> (0::int) \<and> representable (738895 * DAY - 0 * DAY) \<and>
   fetch_historical_data example_pandas always_good (738895 * DAY) 0 =
     (Inl (ValueError ''No objects to concatenate''), always_good)"
proof -
  have h: "(0::int) \<le> 0" by simp
  have r: "representable (738895 * DAY - 0 * DAY)"
    by (simp add: representable_def MAX_INSTANT_def DAY_def)
  from historical_fetch_of_no_days_raises[OF h, of example_pandas always_good "738895 * DAY"] r
  have "fetch_historical_data example_pandas always_good (738895 * DAY) 0 =
     (Inl (ValueError ''No objects to concatenate''), always_good)"
    by auto
  then show ?thesis using r by simp
qed

end
